theory Spec2Isabelle
  imports Main
begin

section \<open>Yeelight tray controller: a shallow embedding of \<^verbatim>\<open>yeelight_tray.pyw\<close>\<close>

text \<open>
  The program has three parts: \<^verbatim>\<open>YeelightController\<close> (the device client, one TCP round
  trip per command), \<^verbatim>\<open>MusicSyncManager\<close> (the supervisor of the helper process) and
  \<^verbatim>\<open>SysTrayIcon\<close> (menu ids, the action registry, rendering and dispatch).

  Conventions of the model.
  \<^item> Python integers are \<open>int\<close>, Python strings are \<open>string\<close>.
  \<^item> The two module-level singletons \<^verbatim>\<open>light\<close> and \<^verbatim>\<open>music_sync\<close> are fields of one
    record \<open>world\<close>, which every operation takes and returns.
  \<^item> Everything the program does to its surroundings is appended to \<open>events\<close>, in program
    order. An event stands for an external call that returned normally; a call that raised
    leaves no event. The one exception is \<open>Invoke_send\<close>, which marks the entry of
    \<^verbatim>\<open>YeelightController.send\<close>.
  \<^item> What the surroundings answer (whether the socket round trip works, whether
    \<^verbatim>\<open>terminate\<close>, \<^verbatim>\<open>wait\<close>, \<^verbatim>\<open>kill\<close> or \<^verbatim>\<open>Popen\<close> raise, whether the helper script
    exists) is an explicit argument, so that every \<^verbatim>\<open>except\<close> branch of the source is a
    branch of the model.
  \<^item> \<^verbatim>\<open>send\<close> runs under \<^verbatim>\<open>self.lock\<close>; calls are therefore modelled as atomic steps taken
    one after another. The Win32 calls of the tray (\<^verbatim>\<open>Shell_NotifyIcon\<close>,
    \<^verbatim>\<open>PostQuitMessage\<close>, \<^verbatim>\<open>DestroyWindow\<close>), which the source does not guard, are taken to
    return normally.
\<close>

subsection \<open>Text: decimal rendering of integers, line break, substring test\<close>

text \<open>The ten digits, in order; \<open>digit_char\<close> is only applied to numbers below 10.\<close>

definition digits :: string where
  "digits = ''0123456789''"

definition digit_char :: "nat \<Rightarrow> char" where
  "digit_char d = digits ! d"

text \<open>\<^verbatim>\<open>str(n)\<close> for a natural number \<open>n\<close>: its decimal digits, most significant first.\<close>

fun str_nat :: "nat \<Rightarrow> string" where
  "str_nat n = (if n < 10 then [digit_char n] else str_nat (n div 10) @ [digit_char (n mod 10)])"

declare str_nat.simps [simp del]

text \<open>What an f-string writes for an integer field \<^verbatim>\<open>{value}\<close>: \<^verbatim>\<open>str(value)\<close>.\<close>

definition str_int :: "int \<Rightarrow> string" where
  "str_int i = (if i < 0 then CHR ''-'' # str_nat (nat (- i)) else str_nat (nat i))"

text \<open>The terminator \<^verbatim>\<open>"\r\n"\<close> appended to every command.\<close>

definition crlf :: string where
  "crlf = [CHR 0x0D, CHR 0x0A]"

fun starts_with :: "string \<Rightarrow> string \<Rightarrow> bool" where
  "starts_with [] s = True"
| "starts_with (p # ps) [] = False"
| "starts_with (p # ps) (c # cs) = (p = c \<and> starts_with ps cs)"

text \<open>Python's \<^verbatim>\<open>needle in hay\<close> on strings.\<close>

fun contains :: "string \<Rightarrow> string \<Rightarrow> bool" where
  "contains needle [] = starts_with needle []"
| "contains needle (c # cs) = (starts_with needle (c # cs) \<or> contains needle cs)"

subsection \<open>Menu declarations\<close>

text \<open>The free functions of the source that the menu refers to.\<close>

datatype handler =
    on_toggle | on_on | on_off
  | bright_100 | bright_75 | bright_50 | bright_25 | bright_10
  | temp_warm | temp_neutral | temp_cool | temp_day
  | on_music_sync

text \<open>
  The third component of a declared option \<^verbatim>\<open>(text, icon, action)\<close>: a function
  (\<open>Callable\<close>), the string \<^verbatim>\<open>'QUIT'\<close>, a nested tuple of options, or \<^verbatim>\<open>None\<close>.
\<close>

datatype action =
    Callable handler
  | QUIT
  | Options "(string \<times> string option \<times> action) list"
  | NoAction

text \<open>
  The third component after \<^verbatim>\<open>_add_ids_to_menu_options\<close>: the integer id of a leaf, a
  list of options (a submenu), or \<^verbatim>\<open>None\<close> (a separator).
\<close>

datatype item =
    ActionId int
  | Submenu "(string \<times> string option \<times> item) list"
  | NoItem

type_synonym menu_spec = "(string \<times> string option \<times> action) list"
type_synonym menu = "(string \<times> string option \<times> item) list"

text \<open>
  \<^verbatim>\<open>menu_actions_by_id\<close> is a Python set of pairs \<^verbatim>\<open>(id, action)\<close>. It is kept as a list
  without repetitions; \<open>add_action\<close> is \<^verbatim>\<open>set(list(s) + [(id, action)])\<close>.
\<close>

type_synonym registry = "(int \<times> action) list"

definition add_action :: "registry \<Rightarrow> int \<times> action \<Rightarrow> registry" where
  "add_action reg e = (if e \<in> set reg then reg else reg @ [e])"

subsection \<open>State and events\<close>

datatype event =
    Invoke_send string string
  | Sock_connect string int
  | Sock_send string
  | Sock_recv
  | Sock_close
  | Proc_spawn nat
  | Proc_terminate nat
  | Proc_wait nat
  | Proc_kill nat
  | Message_box string string
  | Destroy_window
  | Notify_icon_delete
  | Post_quit_message int
  | Thread_start action

text \<open>\<^verbatim>\<open>YeelightController\<close>: the fields set by \<^verbatim>\<open>__init__\<close> (the lock apart).\<close>

record yeelight_controller =
  ip :: string
  port :: int
  cmd_id :: int

text \<open>
  A \<^verbatim>\<open>Popen\<close> handle. \<open>alive\<close> is what \<^verbatim>\<open>poll()\<close> would see: \<^verbatim>\<open>poll() is None\<close> holds
  exactly when \<open>alive\<close> does.
\<close>

record popen =
  pid :: nat
  alive :: bool

text \<open>\<^verbatim>\<open>MusicSyncManager\<close>: \<^verbatim>\<open>self.process\<close> (\<open>None\<close> or a handle) and \<^verbatim>\<open>self.running\<close>.\<close>

record music_sync_manager =
  process :: "popen option"
  running :: bool

record world =
  light :: yeelight_controller
  music_sync :: music_sync_manager
  events :: "event list"

text \<open>
  Where the socket round trip of one \<^verbatim>\<open>send\<close> stops: with an exception from creating,
  configuring or connecting the socket (\<open>Connect_fails\<close>), from \<^verbatim>\<open>sock.send\<close>, from
  \<^verbatim>\<open>sock.recv\<close> (no reply within the three seconds, say) or from \<^verbatim>\<open>sock.close\<close>, or
  not at all (\<open>Round_trip\<close>). A \<^verbatim>\<open>sock.send\<close> that returns is taken to have written the
  whole command.
\<close>

datatype transport =
    Connect_fails
  | Send_fails
  | Recv_fails
  | Close_fails
  | Round_trip

text \<open>The answers of the surroundings during one operation.\<close>

record env =
  net :: transport
  terminate_raises :: bool
  wait_raises :: bool
  kill_raises :: bool
  script_exists :: bool
  popen_result :: "string + nat"

definition log :: "event list \<Rightarrow> world \<Rightarrow> world" where
  "log es w = w\<lparr>events := events w @ es\<rparr>"

text \<open>The initial program state: \<^verbatim>\<open>YeelightController(LIGHT_IP, PORT)\<close> and \<^verbatim>\<open>MusicSyncManager()\<close>.\<close>

definition initial_world :: "string \<Rightarrow> int \<Rightarrow> world" where
  "initial_world light_ip light_port =
     \<lparr>light = \<lparr>ip = light_ip, port = light_port, cmd_id = 1\<rparr>,
      music_sync = \<lparr>process = None, running = False\<rparr>,
      events = []\<rparr>"

subsection \<open>YeelightController\<close>

text \<open>The command text built by the f-string of \<^verbatim>\<open>send\<close>.\<close>

definition envelope :: "int \<Rightarrow> string \<Rightarrow> string \<Rightarrow> string" where
  \<open>envelope n method params =
     ''{"id":'' @ str_int n @ '',"method":"'' @ method @ ''","params":'' @ params @ ''}''\<close>

text \<open>
  \<^verbatim>\<open>send\<close>: the command is built and the counter incremented before the socket is
  opened; any exception after that is caught and gives \<open>False\<close>.
\<close>

definition send :: "transport \<Rightarrow> string \<Rightarrow> string \<Rightarrow> world \<Rightarrow> bool \<times> world" where
  "send t method params w =
     (let c = light w;
          cmd = envelope (cmd_id c) method params;
          w1 = log [Invoke_send method params] (w\<lparr>light := c\<lparr>cmd_id := cmd_id c + 1\<rparr>\<rparr>)
      in case t of
           Connect_fails \<Rightarrow> (False, w1)
         | Send_fails \<Rightarrow> (False, log [Sock_connect (ip c) (port c)] w1)
         | Recv_fails \<Rightarrow>
             (False, log [Sock_connect (ip c) (port c), Sock_send (cmd @ crlf)] w1)
         | Close_fails \<Rightarrow>
             (False, log [Sock_connect (ip c) (port c), Sock_send (cmd @ crlf), Sock_recv] w1)
         | Round_trip \<Rightarrow>
             (True, log [Sock_connect (ip c) (port c), Sock_send (cmd @ crlf),
                         Sock_recv, Sock_close] w1))"

definition on :: "transport \<Rightarrow> world \<Rightarrow> world" where
  \<open>on t w = snd (send t ''set_power'' ''["on","smooth",500]'' w)\<close>

definition off :: "transport \<Rightarrow> world \<Rightarrow> world" where
  \<open>off t w = snd (send t ''set_power'' ''["off","smooth",500]'' w)\<close>

definition toggle_light :: "transport \<Rightarrow> world \<Rightarrow> world" where
  "toggle_light t w = snd (send t ''toggle'' ''[]'' w)"

definition brightness :: "transport \<Rightarrow> int \<Rightarrow> world \<Rightarrow> world" where
  \<open>brightness t v w = snd (send t ''set_bright'' (''['' @ str_int v @ '',"smooth",200]'') w)\<close>

definition color_temp :: "transport \<Rightarrow> int \<Rightarrow> world \<Rightarrow> world" where
  \<open>color_temp t v w = snd (send t ''set_ct_abx'' (''['' @ str_int v @ '',"smooth",500]'') w)\<close>

definition disable_music_mode :: "transport \<Rightarrow> world \<Rightarrow> world" where
  "disable_music_mode t w = snd (send t ''set_music'' ''[0]'' w)"

text \<open>What reached the bulb: the payloads of the completed socket writes, in order.\<close>

fun wire_of :: "event list \<Rightarrow> string list" where
  "wire_of [] = []"
| "wire_of (Sock_send b # es) = b # wire_of es"
| "wire_of (e # es) = wire_of es"

definition wire :: "world \<Rightarrow> string list" where
  "wire w = wire_of (events w)"

text \<open>The socket write of a call completes when the round trip gets past \<^verbatim>\<open>sock.send\<close>.\<close>

fun written :: "transport \<Rightarrow> bool" where
  "written Connect_fails = False"
| "written Send_fails = False"
| "written Recv_fails = True"
| "written Close_fails = True"
| "written Round_trip = True"

text \<open>A sequence of calls \<^verbatim>\<open>send(method, params)\<close>, each with the answer of the network.\<close>

type_synonym call = "string \<times> string \<times> transport"

fun send_all :: "call list \<Rightarrow> world \<Rightarrow> world" where
  "send_all [] w = w"
| "send_all ((method, params, t) # cs) w = send_all cs (snd (send t method params w))"

text \<open>
  Reading a command back from the wire: the id is the run of decimal digits after
  \<^verbatim>\<open>{"id":\<close>.
\<close>

definition is_digit :: "char \<Rightarrow> bool" where
  "is_digit c = (c \<in> set digits)"

text \<open>The value of a digit: its character code less that of \<^verbatim>\<open>0\<close>.\<close>

definition digit_val :: "char \<Rightarrow> nat" where
  "digit_val c = of_char c - 48"

definition digits_val :: "string \<Rightarrow> nat" where
  "digits_val ds = foldl (\<lambda>acc c. 10 * acc + digit_val c) 0 ds"

definition envelope_id :: "string \<Rightarrow> int option" where
  \<open>envelope_id s =
     (if starts_with ''{"id":'' s \<and> takeWhile is_digit (drop 6 s) \<noteq> []
      then Some (int (digits_val (takeWhile is_digit (drop 6 s))))
      else None)\<close>

subsection \<open>MusicSyncManager\<close>

text \<open>The test \<^verbatim>\<open>self.process and self.process.poll() is None\<close>.\<close>

definition live :: "music_sync_manager \<Rightarrow> bool" where
  "live m = (case process m of None \<Rightarrow> False | Some p \<Rightarrow> alive p)"

definition box_title :: string where
  "box_title = ''Yeelight Music Sync''"

definition not_found_text :: string where
  "not_found_text =
     ''Music sync script not found!'' @ [CHR 0x0A, CHR 0x0A] @
     ''Make sure yeelight_music_sync.py is in the same folder.''"

definition failed_text :: "string \<Rightarrow> string" where
  "failed_text err = ''Failed to start music sync:'' @ [CHR 0x0A] @ err"

text \<open>
  \<^verbatim>\<open>start\<close>: returns at once when running with a live handle; shows a message box and
  returns when the script is missing; otherwise \<^verbatim>\<open>Popen\<close>, whose exception (\<open>Inl\<close>, with
  its text) is shown in a message box and whose handle (\<open>Inr\<close>, with the pid of the new
  process) is stored before \<^verbatim>\<open>running\<close> is set.
\<close>

definition start :: "env \<Rightarrow> world \<Rightarrow> world" where
  "start e w =
     (let m = music_sync w in
      if running m \<and> live m then w
      else if \<not> script_exists e then log [Message_box not_found_text box_title] w
      else (case popen_result e of
              Inr new_pid \<Rightarrow>
                log [Proc_spawn new_pid]
                  (w\<lparr>music_sync := m\<lparr>process := Some \<lparr>pid = new_pid, alive = True\<rparr>,
                                     running := True\<rparr>\<rparr>)
            | Inl err \<Rightarrow> log [Message_box (failed_text err) box_title] w))"

text \<open>The inner \<^verbatim>\<open>try: kill() except: pass\<close>.\<close>

definition try_kill :: "env \<Rightarrow> popen \<Rightarrow> event list" where
  "try_kill e p = (if kill_raises e then [] else [Proc_kill (pid p)])"

text \<open>
  The outer \<^verbatim>\<open>try\<close> of \<^verbatim>\<open>stop\<close>: \<^verbatim>\<open>terminate()\<close> then \<^verbatim>\<open>wait(timeout=3)\<close>; an exception
  of either goes to \<^verbatim>\<open>kill()\<close>.
\<close>

definition try_terminate :: "env \<Rightarrow> popen \<Rightarrow> event list" where
  "try_terminate e p =
     (if terminate_raises e then try_kill e p
      else if wait_raises e then Proc_terminate (pid p) # try_kill e p
      else [Proc_terminate (pid p), Proc_wait (pid p)])"

definition stop :: "env \<Rightarrow> world \<Rightarrow> world" where
  "stop e w =
     (let w1 = (case process (music_sync w) of
                  None \<Rightarrow> w
                | Some p \<Rightarrow> log (try_terminate e p) w);
          w2 = w1\<lparr>music_sync := (music_sync w1)\<lparr>process := None, running := False\<rparr>\<rparr>
      in disable_music_mode (net e) w2)"

definition toggle :: "env \<Rightarrow> world \<Rightarrow> world" where
  "toggle e w =
     (let m = music_sync w in if running m \<and> live m then stop e w else start e w)"

definition is_running :: "world \<Rightarrow> bool \<times> world" where
  "is_running w =
     (let m = music_sync w in
      if live m then (True, w) else (False, w\<lparr>music_sync := m\<lparr>running := False\<rparr>\<rparr>))"

text \<open>
  A step of the surroundings, not of the program: the helper process exits on its own.
  The handle stays where it is; only what \<^verbatim>\<open>poll()\<close> will see changes.
\<close>

definition helper_exits :: "world \<Rightarrow> world" where
  "helper_exits w =
     w\<lparr>music_sync := (music_sync w)\<lparr>process := map_option (\<lambda>p. p\<lparr>alive := False\<rparr>)
                                                    (process (music_sync w))\<rparr>\<rparr>"

text \<open>The states the program can be in: any interleaving of its operations and helper exits.\<close>

inductive reachable :: "world \<Rightarrow> bool" where
  r_init: "reachable (initial_world a b)"
| r_send: "reachable w \<Longrightarrow> reachable (snd (send t method params w))"
| r_start: "reachable w \<Longrightarrow> reachable (start e w)"
| r_stop: "reachable w \<Longrightarrow> reachable (stop e w)"
| r_toggle: "reachable w \<Longrightarrow> reachable (toggle e w)"
| r_poll: "reachable w \<Longrightarrow> reachable (snd (is_running w))"
| r_exit: "reachable w \<Longrightarrow> reachable (helper_exits w)"

subsection \<open>The menu action functions\<close>

fun run_handler :: "handler \<Rightarrow> env \<Rightarrow> world \<Rightarrow> world" where
  "run_handler on_toggle e w = toggle_light (net e) w"
| "run_handler on_on e w = on (net e) w"
| "run_handler on_off e w = off (net e) w"
| "run_handler bright_100 e w = brightness (net e) 100 w"
| "run_handler bright_75 e w = brightness (net e) 75 w"
| "run_handler bright_50 e w = brightness (net e) 50 w"
| "run_handler bright_25 e w = brightness (net e) 25 w"
| "run_handler bright_10 e w = brightness (net e) 10 w"
| "run_handler temp_warm e w = color_temp (net e) 2700 w"
| "run_handler temp_neutral e w = color_temp (net e) 4000 w"
| "run_handler temp_cool e w = color_temp (net e) 5500 w"
| "run_handler temp_day e w = color_temp (net e) 6500 w"
| "run_handler on_music_sync e w = toggle e w"

subsection \<open>SysTrayIcon\<close>

definition FIRST_ID :: int where
  "FIRST_ID = 1023"

text \<open>
  \<^verbatim>\<open>_add_ids_to_menu_options\<close>, with \<^verbatim>\<open>self._next_action_id\<close> and
  \<^verbatim>\<open>self.menu_actions_by_id\<close> passed in and returned.
\<close>

fun add_ids_to_menu_options ::
  "menu_spec \<Rightarrow> int \<times> registry \<Rightarrow> menu \<times> int \<times> registry" where
  "add_ids_to_menu_options [] st = ([], st)"
| "add_ids_to_menu_options ((text, icon, Callable h) # rest) (n, reg) =
     (case add_ids_to_menu_options rest (n + 1, add_action reg (n, Callable h)) of
        (rs, st') \<Rightarrow> ((text, icon, ActionId n) # rs, st'))"
| "add_ids_to_menu_options ((text, icon, QUIT) # rest) (n, reg) =
     (case add_ids_to_menu_options rest (n + 1, add_action reg (n, QUIT)) of
        (rs, st') \<Rightarrow> ((text, icon, ActionId n) # rs, st'))"
| "add_ids_to_menu_options ((text, icon, Options sub) # rest) st =
     (case add_ids_to_menu_options sub st of
        (r, st1) \<Rightarrow>
          (case add_ids_to_menu_options rest st1 of
             (rs, st') \<Rightarrow> ((text, icon, Submenu r) # rs, st')))"
| "add_ids_to_menu_options ((text, icon, NoAction) # rest) st =
     (case add_ids_to_menu_options rest st of
        (rs, st') \<Rightarrow> ((text, icon, NoItem) # rs, st'))"

text \<open>The fields of \<^verbatim>\<open>SysTrayIcon\<close> that menu handling uses.\<close>

record sys_tray_icon =
  menu_options :: menu
  menu_actions_by_id :: registry
  next_action_id :: int

text \<open>
  The menu part of \<^verbatim>\<open>SysTrayIcon.__init__\<close>: \<^verbatim>\<open>('Quit', None, QUIT)\<close> is appended, ids
  start at \<^verbatim>\<open>FIRST_ID\<close>, the registry starts empty.
\<close>

definition sys_tray_icon_init :: "menu_spec \<Rightarrow> sys_tray_icon" where
  "sys_tray_icon_init spec =
     (case add_ids_to_menu_options (spec @ [(''Quit'', None, QUIT)]) (FIRST_ID, []) of
        (opts, n, reg) \<Rightarrow>
          \<lparr>menu_options = opts, menu_actions_by_id = reg, next_action_id = n\<rparr>)"

text \<open>The module-level \<^verbatim>\<open>menu_options\<close> of the program.\<close>

definition declared_menu :: menu_spec where
  "declared_menu =
     [(''Toggle'', None, Callable on_toggle),
      ([], None, NoAction),
      (''Turn ON'', None, Callable on_on),
      (''Turn OFF'', None, Callable on_off),
      ([], None, NoAction),
      (''Brightness'', None, Options
         [(''100%'', None, Callable bright_100),
          (''75%'', None, Callable bright_75),
          (''50%'', None, Callable bright_50),
          (''25%'', None, Callable bright_25),
          (''10%'', None, Callable bright_10)]),
      (''Color Temp'', None, Options
         [(''Warm (2700K)'', None, Callable temp_warm),
          (''Neutral (4000K)'', None, Callable temp_neutral),
          (''Cool (5500K)'', None, Callable temp_cool),
          (''Daylight (6500K)'', None, Callable temp_day)]),
      ([], None, NoAction),
      (''Start Music Sync'', None, Callable on_music_sync)]"

text \<open>The tray of the running program: \<^verbatim>\<open>SysTrayIcon(icon_path, "Yeelight Control", menu_options)\<close>.\<close>

definition tray :: sys_tray_icon where
  "tray = sys_tray_icon_init declared_menu"

text \<open>The ids of the leaves of a menu, depth first.\<close>

fun leaf_ids :: "menu \<Rightarrow> int list" where
  "leaf_ids [] = []"
| "leaf_ids ((text, icon, ActionId n) # rest) = n # leaf_ids rest"
| "leaf_ids ((text, icon, Submenu sub) # rest) = leaf_ids sub @ leaf_ids rest"
| "leaf_ids ((text, icon, NoItem) # rest) = leaf_ids rest"

text \<open>The loop \<^verbatim>\<open>for aid, act in self.menu_actions_by_id: if aid == action_id: ...; break\<close>.\<close>

definition action_by_id :: "registry \<Rightarrow> int \<Rightarrow> action" where
  "action_by_id reg action_id =
     (case find (\<lambda>(aid, act). aid = action_id) reg of
        None \<Rightarrow> NoAction
      | Some (aid, act) \<Rightarrow> act)"

text \<open>\<^verbatim>\<open>isinstance(action, list)\<close> on the third component of a menu option.\<close>

fun is_list :: "item \<Rightarrow> bool" where
  "is_list (Submenu sub) = True"
| "is_list (ActionId n) = False"
| "is_list NoItem = False"

text \<open>
  The loop of \<^verbatim>\<open>_get_dynamic_menu\<close> over the top-level options. An option whose text
  contains \<^verbatim>\<open>Music Sync\<close> and that is not a submenu is replaced by one with the new text
  and the id registered for \<^verbatim>\<open>on_music_sync\<close>; it is dropped when no such id is registered.
\<close>

fun dynamic_options :: "registry \<Rightarrow> string \<Rightarrow> menu \<Rightarrow> menu" where
  "dynamic_options reg music_text [] = []"
| "dynamic_options reg music_text ((text, icon, action) # rest) =
     (if contains ''Music Sync'' text \<and> \<not> is_list action
      then (case find (\<lambda>(aid, act). act = Callable on_music_sync) reg of
              Some (aid, act) \<Rightarrow> [(music_text, icon, ActionId aid)]
            | None \<Rightarrow> [])
      else [(text, icon, action)])
     @ dynamic_options reg music_text rest"

definition get_dynamic_menu :: "sys_tray_icon \<Rightarrow> world \<Rightarrow> menu \<times> world" where
  "get_dynamic_menu tr w =
     (case is_running w of
        (r, w') \<Rightarrow>
          (dynamic_options (menu_actions_by_id tr)
             (if r then ''Stop Music Sync'' else ''Start Music Sync'') (menu_options tr),
           w'))"

text \<open>\<^verbatim>\<open>SysTrayIcon.destroy\<close>, the handler of \<^verbatim>\<open>WM_DESTROY\<close>.\<close>

definition destroy :: "env \<Rightarrow> world \<Rightarrow> world" where
  "destroy e w = log [Notify_icon_delete, Post_quit_message 0] (stop e w)"

text \<open>
  \<^verbatim>\<open>win32gui.DestroyWindow(self.hwnd)\<close>: Windows sends \<^verbatim>\<open>WM_DESTROY\<close> to the window
  procedure before the call returns, and the message map of \<^verbatim>\<open>__init__\<close> routes
  \<^verbatim>\<open>WM_DESTROY\<close> to \<^verbatim>\<open>self.destroy\<close>.
\<close>

definition DestroyWindow :: "env \<Rightarrow> world \<Rightarrow> world" where
  "DestroyWindow e w = destroy e (log [Destroy_window] w)"

text \<open>\<^verbatim>\<open>win32api.LOWORD\<close>: the low 16 bits.\<close>

definition LOWORD :: "int \<Rightarrow> int" where
  "LOWORD v = v mod 65536"

text \<open>Python truth value of an action (\<^verbatim>\<open>elif action:\<close>).\<close>

fun truthy :: "action \<Rightarrow> bool" where
  "truthy (Callable h) = True"
| "truthy QUIT = True"
| "truthy (Options sub) = (sub \<noteq> [])"
| "truthy NoAction = False"

text \<open>
  \<^verbatim>\<open>SysTrayIcon.command\<close>, the handler of \<^verbatim>\<open>WM_COMMAND\<close>. The handler of a leaf is
  started on a new thread and runs later; the dispatch itself only starts the thread.
\<close>

definition command :: "sys_tray_icon \<Rightarrow> env \<Rightarrow> int \<Rightarrow> world \<Rightarrow> bool \<times> world" where
  "command tr e wparam w =
     (let action_id = LOWORD wparam;
          action = action_by_id (menu_actions_by_id tr) action_id
      in if action = QUIT then (True, DestroyWindow e w)
         else if truthy action then (True, log [Thread_start action] w)
         else (True, w))"

subsection \<open>Reading the trace\<close>

text \<open>The events added between two states of one run.\<close>

definition since :: "world \<Rightarrow> world \<Rightarrow> event list" where
  "since w w' = drop (length (events w)) (events w')"

fun is_send_call :: "event \<Rightarrow> bool" where
  "is_send_call (Invoke_send m p) = True"
| "is_send_call e = False"

fun is_proc_event :: "event \<Rightarrow> bool" where
  "is_proc_event (Proc_spawn n) = True"
| "is_proc_event (Proc_terminate n) = True"
| "is_proc_event (Proc_wait n) = True"
| "is_proc_event (Proc_kill n) = True"
| "is_proc_event e = False"

text \<open>The positions, in a sequence of calls, of the calls whose socket write completes.\<close>

definition written_at :: "call list \<Rightarrow> nat list" where
  "written_at cs = filter (\<lambda>i. written (snd (snd (cs ! i)))) [0..<length cs]"

text \<open>
  What holds of the two fields of \<^verbatim>\<open>MusicSyncManager\<close> in every state of a run: a set
  \<^verbatim>\<open>running\<close> flag comes with a handle, and a live handle comes with a set flag.
\<close>

definition handle_inv :: "world \<Rightarrow> bool" where
  "handle_inv w =
     ((running (music_sync w) \<longrightarrow> process (music_sync w) \<noteq> None)
      \<and> (live (music_sync w) \<longrightarrow> running (music_sync w)))"

subsection \<open>Concrete runs\<close>

text \<open>Surroundings in which everything works; the helper gets pid 4242.\<close>

definition good_env :: env where
  "good_env =
     \<lparr>net = Round_trip, terminate_raises = False, wait_raises = False,
      kill_raises = False, script_exists = True, popen_result = Inr 4242\<rparr>"

text \<open>The program with the default configuration, before any operation.\<close>

definition default_world :: world where
  "default_world = initial_world ''192.168.1.100'' 55443"

text \<open>The helper has been started.\<close>

definition started_world :: world where
  "started_world = start good_env default_world"

text \<open>The helper has been started and has then exited on its own; nothing has polled it yet.\<close>

definition stale_world :: world where
  "stale_world = helper_exits started_world"

text \<open>Two calls: one round trip, one whose reply never arrives.\<close>

definition two_calls :: "call list" where
  "two_calls = [(''toggle'', ''[]'', Round_trip), (''set_music'', ''[0]'', Recv_fails)]"

section \<open>Auxiliary facts\<close>

subsection \<open>One call of \<^verbatim>\<open>send\<close>\<close>

lemma send_light:
  "light (snd (send t m p w)) = (light w)\<lparr>cmd_id := cmd_id (light w) + 1\<rparr>"
  by (cases t) (simp_all add: send_def log_def Let_def)

lemma send_music_sync: "music_sync (snd (send t m p w)) = music_sync w"
  by (cases t) (simp_all add: send_def log_def Let_def)

lemma send_result: "fst (send t m p w) = (t = Round_trip)"
  by (cases t) (simp_all add: send_def log_def Let_def)

lemma wire_of_append: "wire_of (xs @ ys) = wire_of xs @ wire_of ys"
  by (induction xs rule: wire_of.induct) simp_all

lemma send_wire:
  "wire (snd (send t m p w)) =
     wire w @ (if written t then [envelope (cmd_id (light w)) m p @ crlf] else [])"
  by (cases t) (simp_all add: send_def log_def Let_def wire_def wire_of_append)

lemma initial_wire: "wire (initial_world a b) = []"
  by (simp add: wire_def initial_world_def)

lemma initial_cmd_id: "cmd_id (light (initial_world a b)) = 1"
  by (simp add: initial_world_def)

subsection \<open>Decimal text and the id of a command on the wire\<close>

lemma below_ten:
  "d < 10 \<Longrightarrow>
     d = 0 \<or> d = 1 \<or> d = 2 \<or> d = 3 \<or> d = 4 \<or> d = 5 \<or> d = 6 \<or> d = 7 \<or> d = 8 \<or> d = (9::nat)"
  by arith

lemma digit_char_is_digit: "d < 10 \<Longrightarrow> is_digit (digit_char d)"
  unfolding digit_char_def is_digit_def by (rule nth_mem) (simp add: digits_def)

lemma digit_val_digit_char: "d < 10 \<Longrightarrow> digit_val (digit_char d) = d"
  using below_ten [of d] by (auto simp add: digit_char_def digit_val_def digits_def)

lemma str_nat_digits: "c \<in> set (str_nat n) \<Longrightarrow> is_digit c"
proof (induction n arbitrary: c rule: str_nat.induct)
  case (1 n)
  show ?case
  proof (cases "n < 10")
    case True
    with "1.prems" show ?thesis
      by (simp add: str_nat.simps [of n] digit_char_is_digit)
  next
    case False
    with "1.prems" "1.IH" show ?thesis
      by (auto simp add: str_nat.simps [of n] digit_char_is_digit)
  qed
qed

lemma str_nat_not_Nil: "str_nat n \<noteq> []"
  by (simp add: str_nat.simps [of n])

lemma digits_val_snoc: "digits_val (ds @ [c]) = 10 * digits_val ds + digit_val c"
  by (simp add: digits_val_def)

text \<open>Reading the decimal text of a number gives the number back.\<close>

lemma digits_val_str_nat: "digits_val (str_nat n) = n"
proof (induction n rule: str_nat.induct)
  case (1 n)
  show ?case
  proof (cases "n < 10")
    case True
    then show ?thesis
      by (simp add: str_nat.simps [of n] digits_val_def digit_val_digit_char)
  next
    case False
    then have "digits_val (str_nat n) = 10 * (n div 10) + n mod 10"
      using "1.IH" by (simp add: str_nat.simps [of n] digits_val_snoc digit_val_digit_char)
    then show ?thesis by simp
  qed
qed

lemma takeWhile_digits:
  "takeWhile is_digit (str_nat n @ CHR '','' # rest) = str_nat n"
proof -
  have "\<not> is_digit CHR '',''" by (simp add: is_digit_def digits_def)
  then show ?thesis
    by (simp add: str_nat_digits)
qed

lemma str_int_1: "str_int 1 = ''1''"
  by (simp add: str_int_def str_nat.simps digit_char_def digits_def)

lemma str_int_2700: "str_int 2700 = ''2700''"
  by (simp add: str_int_def str_nat.simps digit_char_def digits_def)

text \<open>The id read from a command built by \<^verbatim>\<open>send\<close> is the id it was built with.\<close>

lemma envelope_id_envelope:
  assumes "0 \<le> n"
  shows "envelope_id (envelope n m p @ suffix) = Some n"
proof -
  have e: "envelope n m p @ suffix =
        ''{\"id\":'' @ (str_nat (nat n) @ CHR '','' #
           (''\"method\":\"'' @ m @ ''\",\"params\":'' @ p @ ''}'' @ suffix))"
    using assms by (simp add: envelope_def str_int_def)
  have s: "starts_with ''{\"id\":'' (''{\"id\":'' @ r)" for r
    by simp
  have d: "drop 6 (''{\"id\":'' @ r) = r" for r
    by simp
  show ?thesis
    unfolding envelope_id_def e
    using assms by (simp only: s d takeWhile_digits digits_val_str_nat str_nat_not_Nil) simp
qed

subsection \<open>A sequence of calls\<close>

lemma send_all_snoc:
  "send_all (cs @ [(m, p, t)]) w = snd (send t m p (send_all cs w))"
  by (induction cs w rule: send_all.induct) simp_all

lemma send_all_cmd_id:
  "cmd_id (light (send_all cs w)) = cmd_id (light w) + int (length cs)"
  by (induction cs w rule: send_all.induct) (simp_all add: send_light)

lemma written_at_snoc:
  "written_at (cs @ [(m, p, t)]) = written_at cs @ (if written t then [length cs] else [])"
proof -
  have "filter (\<lambda>i. written (snd (snd ((cs @ [(m, p, t)]) ! i)))) [0..<length cs]
      = filter (\<lambda>i. written (snd (snd (cs ! i)))) [0..<length cs]"
    by (rule filter_cong) (simp_all add: nth_append)
  then show ?thesis
    by (simp add: written_at_def)
qed

lemma written_at_sorted: "sorted_wrt (<) (written_at cs)"
  by (simp add: written_at_def sorted_wrt_filter)

lemma written_at_bound: "i \<in> set (written_at cs) \<Longrightarrow> i < length cs"
  by (simp add: written_at_def)

lemma written_at_all:
  "\<forall>c \<in> set cs. written (snd (snd c)) \<Longrightarrow> written_at cs = [0..<length cs]"
  by (simp add: written_at_def)

text \<open>The wire after a sequence of calls: one command per completed write, in call order.\<close>

lemma send_all_wire:
  "wire (send_all cs w) =
     wire w @ map (\<lambda>i. envelope (cmd_id (light w) + int i) (fst (cs ! i)) (fst (snd (cs ! i))) @ crlf)
                  (written_at cs)"
proof (induction cs rule: rev_induct)
  case Nil
  show ?case by (simp add: written_at_def)
next
  case (snoc c cs)
  obtain m p t where c: "c = (m, p, t)" by (cases c) auto
  have old:
    "map (\<lambda>i. envelope (cmd_id (light w) + int i) (fst ((cs @ [c]) ! i))
                (fst (snd ((cs @ [c]) ! i))) @ crlf) (written_at cs)
     = map (\<lambda>i. envelope (cmd_id (light w) + int i) (fst (cs ! i)) (fst (snd (cs ! i))) @ crlf)
         (written_at cs)"
    by (rule map_cong) (auto simp add: written_at_def nth_append)
  show ?case
    unfolding c send_all_snoc send_wire snoc.IH written_at_snoc
    using old by (simp add: c send_all_cmd_id)
qed

lemma send_all_ids:
  assumes "0 \<le> cmd_id (light w)"
  shows "map envelope_id (wire (send_all cs w)) =
           map envelope_id (wire w) @ map (\<lambda>i. Some (cmd_id (light w) + int i)) (written_at cs)"
  using assms by (simp add: send_all_wire envelope_id_envelope comp_def)

lemma run_ids:
  "map envelope_id (wire (send_all cs (initial_world a b))) =
     map (\<lambda>i. Some (1 + int i)) (written_at cs)"
  using send_all_ids [of "initial_world a b" cs]
  by (simp add: initial_wire initial_cmd_id)

lemma map_upt_upto: "map (\<lambda>i. k + int i) [0..<n] = [k..k + int n - 1]"
proof (induction n)
  case 0
  show ?case by simp
next
  case (Suc n)
  have "[k..k + int (Suc n) - 1] = [k..k + int n - 1] @ [k + int n]"
    using upto_rec2 [of k "k + int n"] by simp
  with Suc show ?case by simp
qed

subsection \<open>\<^verbatim>\<open>stop\<close>\<close>

lemma stop_grows: "events (stop e w) = events w @ since w (stop e w)"
  by (cases "net e"; cases "process (music_sync w)")
     (simp_all add: stop_def disable_music_mode_def send_def log_def Let_def since_def)

text \<open>What \<^verbatim>\<open>stop\<close> does is the same whatever happened before it.\<close>

lemma stop_since_log: "since (log es w) (stop e (log es w)) = since w (stop e w)"
  by (cases "net e"; cases "process (music_sync w)")
     (simp_all add: stop_def disable_music_mode_def send_def log_def Let_def since_def)

lemma stop_log_state:
  "music_sync (stop e (log es w)) = music_sync (stop e w)
   \<and> light (stop e (log es w)) = light (stop e w)"
  by (cases "net e"; cases "process (music_sync w)")
     (simp_all add: stop_def disable_music_mode_def send_def log_def Let_def since_def)

lemma stop_idle: "music_sync (stop e w) = \<lparr>process = None, running = False\<rparr>"
  by (cases "net e"; cases "process (music_sync w)")
     (simp_all add: stop_def disable_music_mode_def send_def log_def Let_def)

lemma stop_send_calls:
  "filter is_send_call (since w (stop e w)) = [Invoke_send ''set_music'' ''[0]'']"
  by (cases "net e"; cases "process (music_sync w)")
     (simp_all add: stop_def disable_music_mode_def send_def log_def Let_def since_def
        try_terminate_def try_kill_def)

subsection \<open>The states of a run\<close>

lemma handle_inv_send: "handle_inv w \<Longrightarrow> handle_inv (snd (send t m p w))"
  by (simp add: handle_inv_def send_music_sync)

lemma handle_inv_start: "handle_inv w \<Longrightarrow> handle_inv (start e w)"
  by (auto simp add: handle_inv_def start_def log_def live_def Let_def split: sum.splits)

lemma handle_inv_stop: "handle_inv (stop e w)"
  by (simp add: handle_inv_def stop_idle live_def)

lemma handle_inv_toggle: "handle_inv w \<Longrightarrow> handle_inv (toggle e w)"
  by (simp add: toggle_def Let_def handle_inv_stop handle_inv_start)

lemma handle_inv_poll: "handle_inv w \<Longrightarrow> handle_inv (snd (is_running w))"
  by (auto simp add: handle_inv_def is_running_def live_def Let_def)

lemma handle_inv_exit: "handle_inv w \<Longrightarrow> handle_inv (helper_exits w)"
  by (auto simp add: handle_inv_def helper_exits_def live_def split: option.splits)

lemma reachable_handle_inv: "reachable w \<Longrightarrow> handle_inv w"
proof (induction rule: reachable.induct)
  case (r_init a b)
  show ?case by (simp add: handle_inv_def initial_world_def live_def)
qed (simp_all add: handle_inv_send handle_inv_start handle_inv_stop handle_inv_toggle
       handle_inv_poll handle_inv_exit)

lemma default_world_eq:
  "default_world =
     \<lparr>light = \<lparr>ip = ''192.168.1.100'', port = 55443, cmd_id = 1\<rparr>,
      music_sync = \<lparr>process = None, running = False\<rparr>,
      events = []\<rparr>"
  by (simp add: default_world_def initial_world_def)

lemma started_world_eq:
  "started_world =
     \<lparr>light = \<lparr>ip = ''192.168.1.100'', port = 55443, cmd_id = 1\<rparr>,
      music_sync = \<lparr>process = Some \<lparr>pid = 4242, alive = True\<rparr>, running = True\<rparr>,
      events = [Proc_spawn 4242]\<rparr>"
  by (simp add: started_world_def default_world_eq start_def good_env_def live_def log_def)

lemma stale_world_eq:
  "stale_world =
     \<lparr>light = \<lparr>ip = ''192.168.1.100'', port = 55443, cmd_id = 1\<rparr>,
      music_sync = \<lparr>process = Some \<lparr>pid = 4242, alive = False\<rparr>, running = True\<rparr>,
      events = [Proc_spawn 4242]\<rparr>"
  by (simp add: stale_world_def started_world_eq helper_exits_def)

lemma default_world_reachable: "reachable default_world"
  unfolding default_world_def by (rule r_init)

lemma started_world_reachable: "reachable started_world"
  unfolding started_world_def by (intro r_start default_world_reachable)

lemma stale_world_reachable: "reachable stale_world"
  unfolding stale_world_def by (intro r_exit started_world_reachable)

subsection \<open>Id assignment for any declared menu\<close>

lemma upto_join: "i \<le> j \<Longrightarrow> j \<le> k + 1 \<Longrightarrow> [i..j - 1] @ [j..k] = [i..k]" for i j k :: int
proof (cases "i = j")
  case True
  then show ?thesis by simp
next
  case False
  assume "i \<le> j" and "j \<le> k + 1"
  with False have "i \<le> j - 1" and "j - 1 \<le> k"
    by simp_all
  then have "[i..k] = [i..j - 1] @ [j - 1 + 1..k]"
    by (rule upto_split2)
  then show ?thesis by simp
qed

lemma add_action_fresh:
  "fst ` set reg \<subseteq> {..<n} \<Longrightarrow> add_action reg (n, a) = reg @ [(n, a)]"
  by (force simp add: add_action_def)

text \<open>
  For every declared menu: the ids handed out are the integers from the first free id up
  to the last one used, in depth-first order, and when the registry holds only smaller
  ids it gains one entry for each of them, in the same order.
\<close>

lemma add_ids_general:
  "add_ids_to_menu_options spec st = (m, n', reg') \<Longrightarrow>
     fst st \<le> n'
     \<and> leaf_ids m = [fst st..n' - 1]
     \<and> (fst ` set (snd st) \<subseteq> {..<fst st} \<longrightarrow> map fst reg' = map fst (snd st) @ [fst st..n' - 1])"
proof (induction spec st arbitrary: m n' reg' rule: add_ids_to_menu_options.induct)
  case (1 st)
  then show ?case by auto
next
  case (2 tx icon h rest n reg)
  from "2.prems" obtain rs where
    r: "add_ids_to_menu_options rest (n + 1, add_action reg (n, Callable h)) = (rs, n', reg')"
    and m: "m = (tx, icon, ActionId n) # rs"
    by (auto split: prod.splits)
  from "2.IH" [OF r] have le: "n + 1 \<le> n'" and l: "leaf_ids rs = [n + 1..n' - 1]"
    and g: "fst ` set (add_action reg (n, Callable h)) \<subseteq> {..<n + 1} \<longrightarrow>
        map fst reg' = map fst (add_action reg (n, Callable h)) @ [n + 1..n' - 1]"
    by simp_all
  have u: "[n..n' - 1] = n # [n + 1..n' - 1]"
    using le by (simp add: upto_rec1 [of n "n' - 1"])
  have "map fst reg' = map fst reg @ [n..n' - 1]" if f: "fst ` set reg \<subseteq> {..<n}"
  proof -
    have a: "add_action reg (n, Callable h) = reg @ [(n, Callable h)]"
      using f by (rule add_action_fresh)
    have "fst ` set (reg @ [(n, Callable h)]) \<subseteq> {..<n + 1}"
      using f by auto
    with g a show ?thesis by (simp add: u)
  qed
  with le l m u show ?case by simp
next
  case (3 tx icon rest n reg)
  from "3.prems" obtain rs where
    r: "add_ids_to_menu_options rest (n + 1, add_action reg (n, QUIT)) = (rs, n', reg')"
    and m: "m = (tx, icon, ActionId n) # rs"
    by (auto split: prod.splits)
  from "3.IH" [OF r] have le: "n + 1 \<le> n'" and l: "leaf_ids rs = [n + 1..n' - 1]"
    and g: "fst ` set (add_action reg (n, QUIT)) \<subseteq> {..<n + 1} \<longrightarrow>
        map fst reg' = map fst (add_action reg (n, QUIT)) @ [n + 1..n' - 1]"
    by simp_all
  have u: "[n..n' - 1] = n # [n + 1..n' - 1]"
    using le by (simp add: upto_rec1 [of n "n' - 1"])
  have "map fst reg' = map fst reg @ [n..n' - 1]" if f: "fst ` set reg \<subseteq> {..<n}"
  proof -
    have a: "add_action reg (n, QUIT) = reg @ [(n, QUIT)]"
      using f by (rule add_action_fresh)
    have "fst ` set (reg @ [(n, QUIT)]) \<subseteq> {..<n + 1}"
      using f by auto
    with g a show ?thesis by (simp add: u)
  qed
  with le l m u show ?case by simp
next
  case (4 tx icon sub rest st)
  from "4.prems" obtain r n1 reg1 rs where
    s: "add_ids_to_menu_options sub st = (r, n1, reg1)"
    and t: "add_ids_to_menu_options rest (n1, reg1) = (rs, n', reg')"
    and m: "m = (tx, icon, Submenu r) # rs"
    by (auto split: prod.splits)
  from "4.IH"(1) [OF s] have le1: "fst st \<le> n1" and l1: "leaf_ids r = [fst st..n1 - 1]"
    and g1: "fst ` set (snd st) \<subseteq> {..<fst st} \<longrightarrow> map fst reg1 = map fst (snd st) @ [fst st..n1 - 1]"
    by simp_all
  from "4.IH"(2) [OF s [symmetric] t] have le2: "n1 \<le> n'" and l2: "leaf_ids rs = [n1..n' - 1]"
    and g2: "fst ` set reg1 \<subseteq> {..<n1} \<longrightarrow> map fst reg' = map fst reg1 @ [n1..n' - 1]"
    by simp_all
  have j: "[fst st..n1 - 1] @ [n1..n' - 1] = [fst st..n' - 1]"
    using le1 le2 by (intro upto_join) simp_all
  have "map fst reg' = map fst (snd st) @ [fst st..n' - 1]" if f: "fst ` set (snd st) \<subseteq> {..<fst st}"
  proof -
    from g1 f have e1: "map fst reg1 = map fst (snd st) @ [fst st..n1 - 1]" by simp
    have "set (map fst reg1) \<subseteq> {..<n1}"
      unfolding e1 using f le1 by auto
    then have "fst ` set reg1 \<subseteq> {..<n1}" by simp
    with g2 have "map fst reg' = map fst reg1 @ [n1..n' - 1]" by simp
    with e1 j show ?thesis by simp
  qed
  with le1 le2 l1 l2 m j show ?case by simp
next
  case (5 tx icon rest st)
  from "5.prems" obtain rs where
    r: "add_ids_to_menu_options rest st = (rs, n', reg')"
    and m: "m = (tx, icon, NoItem) # rs"
    by (auto split: prod.splits)
  from "5.IH" [OF r] m show ?case by simp
qed


text \<open>
  So for every declared menu the leaf ids of the tray are \<open>FIRST_ID, FIRST_ID + 1, ...\<close>
  without repetition, and the ids of the registry are exactly the leaf ids.
\<close>

lemma sys_tray_icon_init_ids:
  "leaf_ids (menu_options (sys_tray_icon_init spec))
     = [FIRST_ID..next_action_id (sys_tray_icon_init spec) - 1]
   \<and> map fst (menu_actions_by_id (sys_tray_icon_init spec))
       = leaf_ids (menu_options (sys_tray_icon_init spec))
   \<and> distinct (leaf_ids (menu_options (sys_tray_icon_init spec)))"
proof -
  obtain m n' reg' where
    a: "add_ids_to_menu_options (spec @ [(''Quit'', None, QUIT)]) (FIRST_ID, []) = (m, n', reg')"
    by (cases "add_ids_to_menu_options (spec @ [(''Quit'', None, QUIT)]) (FIRST_ID, [])") auto
  from add_ids_general [OF a]
  have "leaf_ids m = [FIRST_ID..n' - 1]" and "map fst reg' = [FIRST_ID..n' - 1]"
    by simp_all
  then show ?thesis
    by (simp add: sys_tray_icon_init_def a)
qed

subsection \<open>The tray of the program\<close>

lemma tray_registry:
  "menu_actions_by_id tray =
      [(1023, Callable on_toggle), (1024, Callable on_on),
       (1025, Callable on_off), (1026, Callable bright_100),
       (1027, Callable bright_75), (1028, Callable bright_50),
       (1029, Callable bright_25), (1030, Callable bright_10),
       (1031, Callable temp_warm), (1032, Callable temp_neutral),
       (1033, Callable temp_cool), (1034, Callable temp_day),
       (1035, Callable on_music_sync), (1036, QUIT)]"
  by (simp add: tray_def sys_tray_icon_init_def declared_menu_def FIRST_ID_def add_action_def)

lemma tray_menu:
  "menu_options tray =
    [(''Toggle'', None, ActionId 1023), ([], None, NoItem),
     (''Turn ON'', None, ActionId 1024),
     (''Turn OFF'', None, ActionId 1025), ([], None, NoItem),
     (''Brightness'', None,
      Submenu
       [(''100%'', None, ActionId 1026), (''75%'', None, ActionId 1027),
        (''50%'', None, ActionId 1028), (''25%'', None, ActionId 1029),
        (''10%'', None, ActionId 1030)]),
     (''Color Temp'', None,
      Submenu
       [(''Warm (2700K)'', None, ActionId 1031),
        (''Neutral (4000K)'', None, ActionId 1032),
        (''Cool (5500K)'', None, ActionId 1033),
        (''Daylight (6500K)'', None, ActionId 1034)]),
     ([], None, NoItem), (''Start Music Sync'', None, ActionId 1035),
     (''Quit'', None, ActionId 1036)]"
  by (simp add: tray_def sys_tray_icon_init_def declared_menu_def FIRST_ID_def add_action_def)

lemma tray_next_id: "next_action_id tray = 1037"
  by (simp add: tray_def sys_tray_icon_init_def declared_menu_def FIRST_ID_def add_action_def)

lemma find_music:
  "find (\<lambda>(aid, act). act = Callable on_music_sync) (menu_actions_by_id tray)
     = Some (1035, Callable on_music_sync)"
  by (simp add: tray_registry)

lemma dynamic_options_tray:
  "dynamic_options (menu_actions_by_id tray) label (menu_options tray) =
     (menu_options tray)[8 := (label, None, ActionId 1035)]"
  by (simp add: tray_menu find_music)

lemma action_by_id_absent:
  "k \<notin> fst ` set reg \<Longrightarrow> action_by_id reg k = NoAction"
proof -
  assume "k \<notin> fst ` set reg"
  then have "find (\<lambda>(aid, act). aid = k) reg = None"
    by (force simp add: find_None_iff)
  then show ?thesis by (simp add: action_by_id_def)
qed

text \<open>
  The registry is a Python set, whose iteration order is not fixed. With one entry per id,
  the lookup does not depend on that order.
\<close>

lemma action_by_id_order:
  assumes "distinct (map fst reg)" and "set reg' = set reg"
  shows "action_by_id reg' k = action_by_id reg k"
proof (cases "k \<in> fst ` set reg")
  case False
  with assms(2) show ?thesis
    by (simp add: action_by_id_absent)
next
  case True
  then obtain a where a: "(k, a) \<in> set reg"
    by auto
  have only: "act = a" if "(k, act) \<in> set reg" for act
    using assms(1) that a by (rule eq_key_imp_eq_value)
  have "action_by_id r k = a" if r: "set r = set reg" for r
  proof (cases "find (\<lambda>(aid, act). aid = k) r")
    case None
    then have "k \<notin> fst ` set r"
      by (force simp add: find_None_iff)
    with a r show ?thesis by force
  next
    case (Some x)
    then have "x \<in> set r" and "fst x = k"
      by (auto simp add: find_Some_iff in_set_conv_nth)
    with r only [of "snd x"] have "snd x = a"
      by (cases x) auto
    with Some show ?thesis
      by (cases x) (simp add: action_by_id_def)
  qed
  from this [of reg'] this [of reg] assms(2) show ?thesis
    by simp
qed

section \<open>The claims\<close>

subsection \<open>Command ids\<close>

text \<open>
  Claim C1, amended. Take any sequence of \<open>N\<close> calls of \<^verbatim>\<open>send\<close>, one after another, from the
  state \<^verbatim>\<open>__init__\<close> leaves. The call at position \<open>i\<close> (from 0) builds its command with id
  \<open>i + 1\<close>, and the counter ends at \<open>N + 1\<close>. The wire holds the commands of exactly the
  calls whose socket write completed, in call order; the ids read back from the wire are
  strictly increasing, lie in \<open>1..N\<close>, and the commands on the wire are pairwise distinct.
  When every write completes, the wire holds \<open>N\<close> commands and their ids are
  \<open>1, 2, ..., N\<close>.
\<close>

theorem send_all_wire_ids:
  "cmd_id (light (send_all cs (initial_world a b))) = 1 + int (length cs)
   \<and> wire (send_all cs (initial_world a b)) =
        map (\<lambda>i. envelope (1 + int i) (fst (cs ! i)) (fst (snd (cs ! i))) @ crlf) (written_at cs)
   \<and> map envelope_id (wire (send_all cs (initial_world a b))) =
        map (\<lambda>i. Some (1 + int i)) (written_at cs)
   \<and> sorted_wrt (<) (map (\<lambda>i. 1 + int i) (written_at cs))
   \<and> set (map (\<lambda>i. 1 + int i) (written_at cs)) \<subseteq> {1..int (length cs)}
   \<and> distinct (wire (send_all cs (initial_world a b)))
   \<and> ((\<forall>c \<in> set cs. written (snd (snd c))) \<longrightarrow>
        length (wire (send_all cs (initial_world a b))) = length cs
        \<and> map envelope_id (wire (send_all cs (initial_world a b))) = map Some [1..int (length cs)])"
proof -
  let ?w = "send_all cs (initial_world a b)"
  have c: "cmd_id (light ?w) = 1 + int (length cs)"
    by (simp add: send_all_cmd_id initial_cmd_id)
  have wi: "wire ?w =
        map (\<lambda>i. envelope (1 + int i) (fst (cs ! i)) (fst (snd (cs ! i))) @ crlf) (written_at cs)"
    by (simp add: send_all_wire initial_wire initial_cmd_id)
  have so: "sorted_wrt (<) (map (\<lambda>i. 1 + int i) (written_at cs))"
    using written_at_sorted [of cs] by (simp add: sorted_wrt_map)
  have su: "set (map (\<lambda>i. 1 + int i) (written_at cs)) \<subseteq> {1..int (length cs)}"
  proof
    fix x
    assume "x \<in> set (map (\<lambda>i. 1 + int i) (written_at cs))"
    then obtain i where i: "i \<in> set (written_at cs)" and x: "x = 1 + int i"
      by auto
    from i have "i < length cs"
      by (rule written_at_bound)
    with x show "x \<in> {1..int (length cs)}"
      by simp
  qed
  have "distinct (written_at cs)"
    by (simp add: written_at_def)
  then have "distinct (map (\<lambda>i. Some (1 + int i)) (written_at cs))"
    by (simp add: distinct_map inj_on_def)
  then have "distinct (map envelope_id (wire ?w))"
    by (simp only: run_ids)
  then have di: "distinct (wire ?w)"
    by (simp add: distinct_map)
  have al: "(\<forall>c \<in> set cs. written (snd (snd c))) \<longrightarrow>
        length (wire ?w) = length cs \<and> map envelope_id (wire ?w) = map Some [1..int (length cs)]"
  proof
    assume "\<forall>c \<in> set cs. written (snd (snd c))"
    then have wa: "written_at cs = [0..<length cs]"
      by (rule written_at_all)
    have "map (\<lambda>i. Some (1 + int i)) [0..<length cs]
            = map Some (map (\<lambda>i. 1 + int i) [0..<length cs])"
      by simp
    also have "\<dots> = map Some [1..int (length cs)]"
      using map_upt_upto [of 1 "length cs"] by simp
    finally have "map envelope_id (wire ?w) = map Some [1..int (length cs)]"
      by (simp only: run_ids wa)
    moreover have "length (wire ?w) = length cs"
      by (simp add: wi wa)
    ultimately show "length (wire ?w) = length cs
        \<and> map envelope_id (wire ?w) = map Some [1..int (length cs)]"
      by simp
  qed
  show ?thesis
    by (rule conjI [OF c conjI [OF wi conjI [OF run_ids conjI [OF so conjI [OF su
          conjI [OF di al]]]]]])
qed

text \<open>
  The theorem at two calls whose writes both complete (the second gets no reply): two
  commands on the wire, with ids 1 and 2.
\<close>

theorem send_all_wire_ids_witness:
  "list_all (\<lambda>c. written (snd (snd c))) two_calls
   \<and> length (wire (send_all two_calls default_world)) = 2
   \<and> map envelope_id (wire (send_all two_calls default_world)) = [Some 1, Some 2]"
proof -
  have h: "\<forall>c \<in> set two_calls. written (snd (snd c))"
    by (simp add: two_calls_def)
  have u: "[1..2] = [1, 2::int]"
    by (simp add: upto_rec1)
  have l: "length two_calls = 2"
    by (simp add: two_calls_def)
  from h send_all_wire_ids [of two_calls "''192.168.1.100''" 55443]
  have "length (wire (send_all two_calls default_world)) = length two_calls
        \<and> map envelope_id (wire (send_all two_calls default_world))
            = map Some [1..int (length two_calls)]"
    unfolding default_world_def by blast
  then show ?thesis
    using h by (simp add: l u list_all_iff)
qed

text \<open>
  Claim C1 as stated fails. One call whose connection is refused puts nothing on the
  wire: one call, no command sent. When a second call then succeeds, the only id on the
  wire is 2, so the ids on the wire do not start at 1.
\<close>

theorem failed_call_sends_nothing:
  "length (wire (send_all [(''toggle'', ''[]'', Connect_fails)] default_world))
     \<noteq> length [(''toggle'', ''[]'', Connect_fails)]
   \<and> map envelope_id
        (wire (send_all [(''toggle'', ''[]'', Connect_fails), (''toggle'', ''[]'', Round_trip)]
                 default_world)) = [Some 2]"
proof -
  have a: "wire (send_all [(''toggle'', ''[]'', Connect_fails)] default_world) = []"
    by (simp add: default_world_def send_wire initial_wire)
  have b: "map envelope_id
        (wire (send_all [(''toggle'', ''[]'', Connect_fails), (''toggle'', ''[]'', Round_trip)]
                 default_world)) = [Some 2]"
    unfolding default_world_def run_ids by (simp add: written_at_def upt_rec)
  show ?thesis using a b by simp
qed

text \<open>
  Claim C10, amended. Every call of \<^verbatim>\<open>send\<close> adds exactly one to the counter and changes
  nothing else of the client (nor of the supervisor), whatever happens to the socket; it
  returns true only for a complete round trip. In a run from the initial state, the id
  taken by a call appears on the wire exactly when that call's socket write completed: a
  call that fails before or in the write (connection or send error) uses up an id that
  is never on the wire, and a call that fails after the write (no reply in time) returns
  false although its command, with its id, is on the wire.
\<close>

theorem send_consumes_one_id:
  "light (snd (send t m p w)) = (light w)\<lparr>cmd_id := cmd_id (light w) + 1\<rparr>
   \<and> music_sync (snd (send t m p w)) = music_sync w
   \<and> fst (send t m p w) = (t = Round_trip)
   \<and> wire (snd (send t m p w)) =
        wire w @ (if written t then [envelope (cmd_id (light w)) m p @ crlf] else [])
   \<and> cmd_id (light (send_all cs1 (initial_world a b))) = 1 + int (length cs1)
   \<and> (Some (1 + int (length cs1))
         \<in> set (map envelope_id (wire (send_all (cs1 @ (m, p, t) # cs2) (initial_world a b))))
       = written t)"
proof -
  let ?cs = "cs1 @ (m, p, t) # cs2"
  have "(Some (1 + int (length cs1))
           \<in> set (map envelope_id (wire (send_all ?cs (initial_world a b)))))
          = (length cs1 \<in> set (written_at ?cs))"
    unfolding run_ids by auto
  also have "\<dots> = written t"
  proof -
    have n: "?cs ! length cs1 = (m, p, t)"
      by simp
    have "(length cs1 \<in> set (written_at ?cs))
            = (length cs1 < length ?cs \<and> written (snd (snd (?cs ! length cs1))))"
      unfolding written_at_def by auto
    then show ?thesis
      unfolding n by simp
  qed
  finally have last: "(Some (1 + int (length cs1))
         \<in> set (map envelope_id (wire (send_all ?cs (initial_world a b))))) = written t" .
  have c: "cmd_id (light (send_all cs1 (initial_world a b))) = 1 + int (length cs1)"
    by (simp add: send_all_cmd_id initial_cmd_id)
  show ?thesis
    by (rule conjI [OF send_light conjI [OF send_music_sync conjI [OF send_result
          conjI [OF send_wire conjI [OF c last]]]]])
qed

text \<open>
  Claim C10 as stated fails in its last part. The first call of a run takes id 1; when
  its write completes and no reply arrives, it returns false, and the command with id 1
  is on the wire.
\<close>

theorem failed_send_id_on_wire:
  "\<not> fst (send Recv_fails ''toggle'' ''[]'' default_world)
   \<and> cmd_id (light default_world) = 1
   \<and> map envelope_id (wire (snd (send Recv_fails ''toggle'' ''[]'' default_world))) = [Some 1]"
  using envelope_id_envelope [of 1 "''toggle''" "''[]''" crlf]
  by (simp add: default_world_def send_result send_wire initial_wire initial_cmd_id)

text \<open>
  Claim C5. \<^verbatim>\<open>color_temp(2700)\<close> makes one call of \<^verbatim>\<open>send\<close>, with method \<^verbatim>\<open>set_ct_abx\<close>
  and parameters \<^verbatim>\<open>[2700,"smooth",500]\<close>. What it writes to the socket, when the write
  completes, is the single line
  \<^verbatim>\<open>{"id":n,"method":"set_ct_abx","params":[2700,"smooth",500]}\<close> followed by
  \<^verbatim>\<open>"\r\n"\<close>, where \<open>n\<close> is the decimal text of the counter before the call; it writes
  nothing else. \<^verbatim>\<open>temp_warm\<close> is this call. As the first command of a run, \<open>n\<close> is \<open>1\<close>.
\<close>

theorem color_temp_2700_envelope:
  "wire (color_temp t 2700 w) =
     wire w @ (if written t
               then [''{\"id\":'' @ str_int (cmd_id (light w)) @
                     '',\"method\":\"set_ct_abx\",\"params\":[2700,\"smooth\",500]}'' @
                     [CHR 0x0D, CHR 0x0A]]
               else [])
   \<and> events (color_temp t 2700 w) = events w @ since w (color_temp t 2700 w)
   \<and> filter is_send_call (since w (color_temp t 2700 w)) =
        [Invoke_send ''set_ct_abx'' ''[2700,\"smooth\",500]'']
   \<and> run_handler temp_warm e w = color_temp (net e) 2700 w
   \<and> wire (color_temp Round_trip 2700 (initial_world a b)) =
        [''{\"id\":1,\"method\":\"set_ct_abx\",\"params\":[2700,\"smooth\",500]}'' @
         [CHR 0x0D, CHR 0x0A]]"
proof -
  have w: "wire (color_temp t 2700 w) =
     wire w @ (if written t
               then [''{\"id\":'' @ str_int (cmd_id (light w)) @
                     '',\"method\":\"set_ct_abx\",\"params\":[2700,\"smooth\",500]}'' @
                     [CHR 0x0D, CHR 0x0A]]
               else [])" for t w
    by (simp add: color_temp_def send_wire str_int_2700 envelope_def crlf_def)
  have s: "filter is_send_call (since w (color_temp t 2700 w)) =
        [Invoke_send ''set_ct_abx'' ''[2700,\"smooth\",500]'']"
    by (cases t) (simp_all add: color_temp_def send_def log_def Let_def since_def str_int_2700)
  have i: "wire (color_temp Round_trip 2700 (initial_world a b)) =
        [''{\"id\":1,\"method\":\"set_ct_abx\",\"params\":[2700,\"smooth\",500]}'' @
         [CHR 0x0D, CHR 0x0A]]"
    unfolding w by (simp add: initial_world_def wire_def str_int_1)
  have r: "run_handler temp_warm e w = color_temp (net e) 2700 w"
    by simp
  have g: "events (color_temp t 2700 w) = events w @ since w (color_temp t 2700 w)"
    by (cases t) (simp_all add: color_temp_def send_def log_def Let_def since_def)
  show ?thesis
    by (rule conjI [OF w [of t w] conjI [OF g conjI [OF s conjI [OF r i]]]])
qed

subsection \<open>The helper process\<close>

text \<open>
  Claim C2. Whatever the state before \<^verbatim>\<open>stop()\<close> (no handle, a live process, an exited
  one) and whatever \<^verbatim>\<open>terminate\<close>, \<^verbatim>\<open>wait\<close> and \<^verbatim>\<open>kill\<close> do, \<^verbatim>\<open>stop()\<close> calls
  \<^verbatim>\<open>send\<close> exactly once, with \<^verbatim>\<open>set_music\<close> and \<^verbatim>\<open>[0]\<close>; no process call comes after
  that call; afterwards the handle is \<^verbatim>\<open>None\<close> and \<^verbatim>\<open>running\<close> is false. The client's
  counter has advanced by one, and the wire has gained the \<^verbatim>\<open>set_music\<close> command when
  its write completed and nothing otherwise.
\<close>

theorem stop_always_disables:
  "events (stop e w) = events w @ since w (stop e w)
   \<and> filter is_send_call (since w (stop e w)) = [Invoke_send ''set_music'' ''[0]'']
   \<and> filter is_proc_event (dropWhile (\<lambda>x. \<not> is_send_call x) (since w (stop e w))) = []
   \<and> process (music_sync (stop e w)) = None
   \<and> running (music_sync (stop e w)) = False
   \<and> light (stop e w) = (light w)\<lparr>cmd_id := cmd_id (light w) + 1\<rparr>
   \<and> wire (stop e w) =
        wire w @ (if written (net e)
                  then [envelope (cmd_id (light w)) ''set_music'' ''[0]'' @ crlf] else [])"
  by (cases "net e"; cases "process (music_sync w)")
     (simp_all add: stop_def disable_music_mode_def send_def log_def Let_def since_def
        try_terminate_def try_kill_def wire_def wire_of_append)

text \<open>
  Claim C6. When \<^verbatim>\<open>running\<close> is set and the handle is live, \<^verbatim>\<open>start()\<close> changes nothing:
  no process is launched, no message box is shown, the state is the same. Hence, when a
  first \<^verbatim>\<open>start()\<close> launches the helper, a second one right after it leaves the state of
  the first; between the beginning and the end exactly one process was launched, and its
  handle is the one held.
\<close>

theorem start_when_running_is_noop:
  "(running (music_sync w) \<and> live (music_sync w) \<longrightarrow> start e w = w)
   \<and> (\<not> (running (music_sync w) \<and> live (music_sync w))
        \<and> script_exists e1 \<and> popen_result e1 = Inr n \<longrightarrow>
        start e2 (start e1 w) = start e1 w
        \<and> events (start e2 (start e1 w)) = events w @ [Proc_spawn n]
        \<and> music_sync (start e2 (start e1 w)) =
            \<lparr>process = Some \<lparr>pid = n, alive = True\<rparr>, running = True\<rparr>)"
  by (auto simp add: start_def live_def log_def Let_def)

text \<open>
  The theorem on the default program: the first \<^verbatim>\<open>start()\<close> launches process 4242, the
  state is then running with a live handle, and the second \<^verbatim>\<open>start()\<close> changes nothing.
\<close>

theorem start_when_running_is_noop_witness:
  "\<not> (running (music_sync default_world) \<and> live (music_sync default_world))
   \<and> script_exists good_env \<and> popen_result good_env = Inr 4242
   \<and> running (music_sync started_world) \<and> live (music_sync started_world)
   \<and> start good_env started_world = started_world
   \<and> events (start good_env (start good_env default_world)) = events default_world @ [Proc_spawn 4242]"
proof -
  have a: "\<not> (running (music_sync default_world) \<and> live (music_sync default_world))"
    by (simp add: default_world_eq)
  have b: "script_exists good_env \<and> popen_result good_env = Inr 4242"
    by (simp add: good_env_def)
  have c: "running (music_sync started_world) \<and> live (music_sync started_world)"
    by (simp add: started_world_eq live_def)
  show ?thesis
    using a b c
      start_when_running_is_noop [of default_world good_env good_env 4242 good_env]
      start_when_running_is_noop [of started_world good_env good_env 4242 good_env]
    by blast
qed

text \<open>
  Claim C4, amended. When the handle held is that of a process that has exited,
  \<^verbatim>\<open>is_running()\<close> returns false and clears \<^verbatim>\<open>running\<close>, leaving everything else,
  the handle included, as it was. \<^verbatim>\<open>is_running()\<close> returns true exactly when a live
  handle is held, and in the state it leaves, \<^verbatim>\<open>running\<close> implies a live handle. Between
  polls this need not hold; in every state of a run, \<^verbatim>\<open>running\<close> still implies that a
  handle is held.
\<close>

theorem is_running_self_heals:
  "(process (music_sync w) = Some p \<and> \<not> alive p \<longrightarrow>
      is_running w = (False, w\<lparr>music_sync := (music_sync w)\<lparr>running := False\<rparr>\<rparr>))
   \<and> fst (is_running w) = live (music_sync w)
   \<and> (running (music_sync (snd (is_running w))) \<longrightarrow> live (music_sync (snd (is_running w))))
   \<and> (reachable w \<and> running (music_sync w) \<longrightarrow> process (music_sync w) \<noteq> None)"
  using reachable_handle_inv [of w]
  by (auto simp add: is_running_def live_def Let_def handle_inv_def)

text \<open>
  The theorem on two states: after the helper has exited unobserved, the poll returns
  false and clears the flag; while the helper lives, the state after the poll is running
  with a live handle.
\<close>

theorem is_running_self_heals_witness:
  "process (music_sync stale_world) = Some \<lparr>pid = 4242, alive = False\<rparr>
   \<and> \<not> alive \<lparr>pid = 4242, alive = False\<rparr>
   \<and> reachable stale_world \<and> running (music_sync stale_world)
   \<and> is_running stale_world =
       (False, stale_world\<lparr>music_sync := (music_sync stale_world)\<lparr>running := False\<rparr>\<rparr>)
   \<and> process (music_sync stale_world) \<noteq> None
   \<and> running (music_sync (snd (is_running started_world)))
   \<and> live (music_sync (snd (is_running started_world)))"
  using is_running_self_heals [of stale_world "\<lparr>pid = 4242, alive = False\<rparr>"]
        is_running_self_heals [of started_world "\<lparr>pid = 4242, alive = False\<rparr>"]
        stale_world_reachable
  by (simp add: stale_world_eq) (simp add: is_running_def started_world_eq live_def)

text \<open>
  Claim C4 as stated fails in its second part. After \<^verbatim>\<open>start()\<close> and the exit of the
  helper, a state of a run, \<^verbatim>\<open>running\<close> is set and the handle is not live.
\<close>

theorem running_without_live_handle:
  "reachable stale_world \<and> running (music_sync stale_world) \<and> \<not> live (music_sync stale_world)"
  by (simp add: stale_world_reachable) (simp add: stale_world_eq live_def)

subsection \<open>The menu\<close>

text \<open>
  Claim C3, amended. Building the declared menu of the program, with \<^verbatim>\<open>Quit\<close> appended
  and ids from 1023, gives 14 leaf ids, \<open>1023, ..., 1036\<close> in depth-first order: all
  different, none below 1023. The registry has one entry for each leaf id and no other
  entry; each entry holds a function or \<^verbatim>\<open>QUIT\<close>, none a submenu or a separator.
\<close>

theorem declared_menu_leaf_ids:
  "leaf_ids (menu_options tray) = [1023..1036]
   \<and> length (leaf_ids (menu_options tray)) = 14
   \<and> distinct (leaf_ids (menu_options tray))
   \<and> list_all (\<lambda>i. FIRST_ID \<le> i) (leaf_ids (menu_options tray))
   \<and> map fst (menu_actions_by_id tray) = leaf_ids (menu_options tray)
   \<and> map snd (menu_actions_by_id tray) =
        [Callable on_toggle, Callable on_on, Callable on_off,
         Callable bright_100, Callable bright_75, Callable bright_50, Callable bright_25,
         Callable bright_10, Callable temp_warm, Callable temp_neutral, Callable temp_cool,
         Callable temp_day, Callable on_music_sync, QUIT]
   \<and> next_action_id tray = 1037"
proof -
  have u: "[1023..1036] =
      [1023, 1024, 1025, 1026, 1027, 1028, 1029, 1030, 1031, 1032, 1033, 1034, 1035, 1036::int]"
    by (simp add: upto_rec1)
  show ?thesis
    unfolding u by (simp add: tray_menu tray_registry FIRST_ID_def tray_next_id)
qed

text \<open>Claim C3 as stated fails: the declared menu has 14 leaves, not 13.\<close>

theorem declared_menu_not_13_leaves:
  "length (leaf_ids (menu_options tray)) \<noteq> 13"
  by (simp add: tray_menu)

text \<open>
  Claim C7, amended. The rendered menu is the static menu with one entry replaced, the
  ninth top-level entry (position 8), which in the static menu is
  \<^verbatim>\<open>Start Music Sync\<close> with id 1035. The replacement has the same id 1035, registered for
  \<^verbatim>\<open>on_music_sync\<close>, and the label \<^verbatim>\<open>Stop Music Sync\<close> when a live handle is held and
  \<^verbatim>\<open>Start Music Sync\<close> otherwise; every other entry, and so every leaf id, is that of the
  static menu. So rendering while running with a live handle gives \<^verbatim>\<open>Stop Music Sync\<close>,
  and rendering while not running, in any state of a run, gives \<^verbatim>\<open>Start Music Sync\<close>.
  Rendering while \<^verbatim>\<open>running\<close> is set and the helper has exited gives
  \<^verbatim>\<open>Start Music Sync\<close> as well, and the poll made by the rendering clears the flag.
\<close>

theorem dynamic_menu_label:
  "fst (get_dynamic_menu tray w) =
      (menu_options tray)
        [8 := (if live (music_sync w) then ''Stop Music Sync'' else ''Start Music Sync'',
               None, ActionId 1035)]
   \<and> menu_options tray ! 8 = (''Start Music Sync'', None, ActionId 1035)
   \<and> action_by_id (menu_actions_by_id tray) 1035 = Callable on_music_sync
   \<and> leaf_ids (fst (get_dynamic_menu tray w)) = leaf_ids (menu_options tray)
   \<and> snd (get_dynamic_menu tray w) = snd (is_running w)
   \<and> (running (music_sync w) \<and> live (music_sync w) \<longrightarrow>
        fst (get_dynamic_menu tray w) ! 8 = (''Stop Music Sync'', None, ActionId 1035))
   \<and> (reachable w \<and> \<not> running (music_sync w) \<longrightarrow>
        fst (get_dynamic_menu tray w) ! 8 = (''Start Music Sync'', None, ActionId 1035))
   \<and> (running (music_sync w) \<and> \<not> live (music_sync w) \<longrightarrow>
        fst (get_dynamic_menu tray w) ! 8 = (''Start Music Sync'', None, ActionId 1035)
        \<and> \<not> running (music_sync (snd (get_dynamic_menu tray w))))"
proof -
  have g: "fst (get_dynamic_menu tray w) =
      (menu_options tray)
        [8 := (if live (music_sync w) then ''Stop Music Sync'' else ''Start Music Sync'',
               None, ActionId 1035)]"
    by (simp add: get_dynamic_menu_def is_running_def Let_def dynamic_options_tray)
  have s: "snd (get_dynamic_menu tray w) = snd (is_running w)"
    by (simp add: get_dynamic_menu_def split: prod.splits)
  have a: "action_by_id (menu_actions_by_id tray) 1035 = Callable on_music_sync"
    by (simp add: action_by_id_def tray_registry)
  have l: "leaf_ids (fst (get_dynamic_menu tray w)) = leaf_ids (menu_options tray)"
    unfolding g by (simp add: tray_menu)
  have len: "length (menu_options tray) = 10"
    by (simp add: tray_menu)
  have nth: "fst (get_dynamic_menu tray w) ! 8 =
       (if live (music_sync w) then ''Stop Music Sync'' else ''Start Music Sync'',
        None, ActionId 1035)"
    unfolding g by (simp add: len)
  have i: "reachable w \<Longrightarrow> \<not> running (music_sync w) \<Longrightarrow> \<not> live (music_sync w)"
    using reachable_handle_inv [of w] by (auto simp add: handle_inv_def)
  have h: "\<not> live (music_sync w) \<Longrightarrow> \<not> running (music_sync (snd (get_dynamic_menu tray w)))"
    unfolding s by (simp add: is_running_def Let_def)
  have m: "menu_options tray ! 8 = (''Start Music Sync'', None, ActionId 1035)"
    by (simp add: tray_menu)
  have c1: "running (music_sync w) \<and> live (music_sync w) \<longrightarrow>
        fst (get_dynamic_menu tray w) ! 8 = (''Stop Music Sync'', None, ActionId 1035)"
    by (simp add: nth)
  have c2: "reachable w \<and> \<not> running (music_sync w) \<longrightarrow>
        fst (get_dynamic_menu tray w) ! 8 = (''Start Music Sync'', None, ActionId 1035)"
    using i by (simp add: nth)
  have c3: "running (music_sync w) \<and> \<not> live (music_sync w) \<longrightarrow>
        fst (get_dynamic_menu tray w) ! 8 = (''Start Music Sync'', None, ActionId 1035)
        \<and> \<not> running (music_sync (snd (get_dynamic_menu tray w)))"
    using h by (simp add: nth)
  show ?thesis
    by (rule conjI [OF g conjI [OF m conjI [OF a conjI [OF l conjI [OF s conjI [OF c1
          conjI [OF c2 c3]]]]]]])
qed

text \<open>
  The theorem on three states of the default program: helper started and alive, nothing
  started, helper started and exited.
\<close>

theorem dynamic_menu_label_witness:
  "running (music_sync started_world) \<and> live (music_sync started_world)
   \<and> fst (get_dynamic_menu tray started_world) ! 8 = (''Stop Music Sync'', None, ActionId 1035)
   \<and> reachable default_world \<and> \<not> running (music_sync default_world)
   \<and> fst (get_dynamic_menu tray default_world) ! 8 = (''Start Music Sync'', None, ActionId 1035)
   \<and> running (music_sync stale_world) \<and> \<not> live (music_sync stale_world)
   \<and> \<not> running (music_sync (snd (get_dynamic_menu tray stale_world)))"
proof -
  have a: "running (music_sync started_world) \<and> live (music_sync started_world)"
    by (simp add: started_world_eq live_def)
  have b: "reachable default_world \<and> \<not> running (music_sync default_world)"
    by (simp add: default_world_reachable) (simp add: default_world_eq)
  have c: "running (music_sync stale_world) \<and> \<not> live (music_sync stale_world)"
    by (simp add: stale_world_eq live_def)
  show ?thesis
    using a b c dynamic_menu_label [of started_world] dynamic_menu_label [of default_world]
      dynamic_menu_label [of stale_world]
    by blast
qed

text \<open>
  Claim C7 as stated fails in its first part. In the state where \<^verbatim>\<open>running\<close> is set and
  the helper has exited, the rendered entry has the label \<^verbatim>\<open>Start Music Sync\<close>.
\<close>

theorem stale_running_renders_start:
  "running (music_sync stale_world)
   \<and> fst (get_dynamic_menu tray stale_world) ! 8 = (''Start Music Sync'', None, ActionId 1035)"
  by (simp add: get_dynamic_menu_def is_running_def Let_def dynamic_options_tray)
     (simp add: stale_world_eq live_def tray_menu)

subsection \<open>Dispatch\<close>

text \<open>
  Claim C8. When the id selected is registered for \<^verbatim>\<open>QUIT\<close>, \<^verbatim>\<open>command\<close> returns true
  and what happens is, in this order: \<^verbatim>\<open>DestroyWindow\<close>; everything \<^verbatim>\<open>stop()\<close> does from
  the state at hand, which includes exactly one call of \<^verbatim>\<open>send\<close>, the one with
  \<^verbatim>\<open>set_music\<close> and \<^verbatim>\<open>[0]\<close>; the removal of the tray icon; \<^verbatim>\<open>PostQuitMessage(0)\<close>.
  Nothing else happens, for every answer of the surroundings, and the supervisor ends
  with no handle and \<^verbatim>\<open>running\<close> false.
\<close>

theorem quit_shutdown_order:
  "action_by_id (menu_actions_by_id tr) (LOWORD wparam) = QUIT \<Longrightarrow>
     fst (command tr e wparam w) = True
     \<and> events (snd (command tr e wparam w)) =
         events w @ [Destroy_window] @ since w (stop e w)
           @ [Notify_icon_delete, Post_quit_message 0]
     \<and> filter is_send_call (since w (stop e w)) = [Invoke_send ''set_music'' ''[0]'']
     \<and> music_sync (snd (command tr e wparam w)) = \<lparr>process = None, running = False\<rparr>"
proof -
  assume q: "action_by_id (menu_actions_by_id tr) (LOWORD wparam) = QUIT"
  have c: "command tr e wparam w =
        (True, log [Notify_icon_delete, Post_quit_message 0] (stop e (log [Destroy_window] w)))"
    using q by (simp add: command_def Let_def DestroyWindow_def destroy_def)
  have ev: "events (stop e (log [Destroy_window] w)) =
        events w @ [Destroy_window] @ since w (stop e w)"
    using stop_grows [of e "log [Destroy_window] w"] stop_since_log [of "[Destroy_window]" w e]
    by (simp add: log_def)
  show ?thesis
    using ev stop_send_calls [of w e] stop_idle [of e w] stop_log_state [of e "[Destroy_window]" w]
    by (simp add: c log_def)
qed

text \<open>
  The theorem on the program's tray, with the helper running: id 1036 is the Quit leaf,
  and selecting it terminates and awaits the helper, sends \<^verbatim>\<open>set_music\<close>, removes the
  icon and posts the quit message.
\<close>

theorem quit_shutdown_order_witness:
  "action_by_id (menu_actions_by_id tray) (LOWORD 1036) = QUIT
   \<and> events (snd (command tray good_env 1036 started_world)) =
       [Proc_spawn 4242, Destroy_window, Proc_terminate 4242, Proc_wait 4242,
        Invoke_send ''set_music'' ''[0]'', Sock_connect ''192.168.1.100'' 55443,
        Sock_send (envelope 1 ''set_music'' ''[0]'' @ crlf), Sock_recv, Sock_close,
        Notify_icon_delete, Post_quit_message 0]"
proof -
  have q: "action_by_id (menu_actions_by_id tray) (LOWORD 1036) = QUIT"
    by (simp add: action_by_id_def tray_registry LOWORD_def)
  have s: "since started_world (stop good_env started_world) =
       [Proc_terminate 4242, Proc_wait 4242,
        Invoke_send ''set_music'' ''[0]'', Sock_connect ''192.168.1.100'' 55443,
        Sock_send (envelope 1 ''set_music'' ''[0]'' @ crlf), Sock_recv, Sock_close]"
    by (simp add: started_world_eq stop_def disable_music_mode_def send_def log_def Let_def
          since_def try_terminate_def good_env_def)
  have e: "events started_world = [Proc_spawn 4242]"
    by (simp add: started_world_eq)
  show ?thesis
    using q quit_shutdown_order [of tray 1036 good_env started_world]
    by (simp add: s e)
qed

text \<open>
  Claim C9. When the id selected is not in the registry, \<^verbatim>\<open>command\<close> returns true and
  leaves the state as it was: no thread is started, no window is destroyed, no message
  box is shown, no event of any kind is added.
\<close>

theorem command_unknown_id:
  "LOWORD wparam \<notin> fst ` set (menu_actions_by_id tr) \<Longrightarrow> command tr e wparam w = (True, w)"
  by (simp add: command_def Let_def action_by_id_absent)

text \<open>The theorem on the program's tray: id 5 is not registered.\<close>

theorem command_unknown_id_witness:
  "LOWORD 5 \<notin> fst ` set (menu_actions_by_id tray)
   \<and> command tray good_env 5 default_world = (True, default_world)"
  using command_unknown_id [of 5 tray good_env default_world]
  by (simp add: tray_registry LOWORD_def)

end
